theory Spec2Isabelle
  imports Main
begin

section \<open>Instagram embed lazy loader (instagram-lazy-loader.js)\<close>

text \<open>
  A shallow embedding of the lazy loader. The browser's main thread is modelled as a
  sequence of macrotasks (events); each runs one handler of the script to completion and
  then drains the microtask queue, where the continuations of \<open>await\<close> run. Promises,
  timers and the relevant part of the DOM are explicit components of the state.
\<close>

subsection \<open>Configuration\<close>

text \<open>
  The fields of \<open>CONFIG\<close> that the script itself reads. \<open>rootMargin\<close> and \<open>threshold\<close>
  are only handed to the browser's IntersectionObserver, whose reports are inputs here.
\<close>

record config =
  scriptSrc :: string
  maxRetries :: nat
  retryDelay :: nat

definition CONFIG :: config where
  "CONFIG = \<lparr>scriptSrc = ''https://www.instagram.com/embed.js'',
             maxRetries = 3, retryDelay = 1000\<rparr>"

subsection \<open>The DOM\<close>

text \<open>The \<open>innerHTML\<close> of a \<open>.placeholder-overlay\<close>: the page's own markup, or the error message.\<close>

datatype overlay_html = PageMarkup | UnableToLoad

record placeholder_el =
  display_none :: bool
  overlay :: "overlay_html option"

text \<open>The blockquote built by \<open>createInstagramEmbed\<close> (styles left out).\<close>

record embed_el =
  className :: string
  instgrm_permalink :: string
  instgrm_version :: string
  link_href :: string

text \<open>
  A \<open>.instagram-lazy-wrapper\<close> node: its \<open>data-permalink\<close> attribute, its
  \<open>.instagram-placeholder\<close> child, the embeds appended to it, and whether its class list
  contains \<open>loaded\<close>.
\<close>

record wrapper_el =
  data_permalink :: "string option"
  placeholder :: "placeholder_el option"
  appended :: "embed_el list"
  loaded :: bool

text \<open>
  A script element of the document. \<open>settles\<close> is the promise that its \<open>onload\<close> and
  \<open>onerror\<close> handlers settle; it is \<open>None\<close> for an element the loader did not create.
\<close>

record script_el =
  src :: string
  settles :: "nat option"

record rect =
  rect_top :: int
  rect_left :: int
  rect_bottom :: int
  rect_right :: int

record viewport =
  innerHeight :: int
  clientHeight :: int
  innerWidth :: int
  clientWidth :: int

subsection \<open>Promises, timers, observations\<close>

datatype settlement = Fulfilled | Rejected

text \<open>What \<open>window.instgrm.Embeds.process\<close> does when called.\<close>

datatype hook = HookReturns | HookThrows

text \<open>The callbacks handed to \<open>setTimeout\<close>.\<close>

datatype task =
    Retry nat nat
  | HookProcess
  | PreloadVisible

text \<open>
  The rest of \<open>processEmbed\<close> after its \<open>await\<close>: the wrapper, the permalink read before
  the \<open>await\<close>, and the retry count.
\<close>

datatype continuation = AfterGate nat string nat

text \<open>
  The trace records the console calls of the script, and, as instrumentation, each call
  of \<open>processEmbed\<close>, each promise returned by \<open>loadInstagramScript\<close>, each
  \<open>createElement('script')\<close>, each \<open>setTimeout\<close> and each call of the hook.
\<close>

datatype obs =
    WarnInvalidWrapper
  | ErrScriptFailed
  | ErrScriptException
  | ErrAttempt nat
  | ErrMaxRetries
  | ErrHook
  | WarnNoObserver
  | Called nat nat
  | GateReturned nat
  | ScriptCreated
  | TimerSet nat task
  | HookInvoked

record state =
  isInstagramScriptLoaded :: bool
  instagramScriptPromise :: "nat option"
  promises :: "nat \<Rightarrow> settlement option"
  next_promise :: nat
  body_present :: bool
  doc_scripts :: "script_el list"
  nodes :: "nat \<Rightarrow> wrapper_el"
  doc_wrappers :: "nat list"
  observer_supported :: bool
  observed :: "nat list"
  click_bound :: bool
  load_listener :: bool
  instgrm :: "hook option"
  layout :: "nat \<Rightarrow> rect"
  window :: viewport
  timers :: "(nat \<times> task) list"
  waiters :: "(nat \<times> continuation) list"
  microtasks :: "(continuation \<times> settlement) list"
  trace :: "obs list"

definition emit :: "obs \<Rightarrow> state \<Rightarrow> state" where
  "emit x s = s\<lparr>trace := trace s @ [x]\<rparr>"

definition setTimeout :: "task \<Rightarrow> nat \<Rightarrow> state \<Rightarrow> state" where
  "setTimeout t d s = emit (TimerSet d t) (s\<lparr>timers := timers s @ [(d, t)]\<rparr>)"

text \<open>\<open>new Promise\<close>: a fresh pending promise.\<close>

definition new_promise :: "state \<Rightarrow> nat \<times> state" where
  "new_promise s =
     (next_promise s,
      s\<lparr>promises := (promises s)(next_promise s := None),
        next_promise := Suc (next_promise s)\<rparr>)"

text \<open>
  \<open>resolve()\<close> and \<open>reject()\<close>: nothing happens on a settled promise; otherwise the
  promise is settled and the continuations waiting for it are queued as microtasks, in
  the order in which they started to wait.
\<close>

definition settle :: "nat \<Rightarrow> settlement \<Rightarrow> state \<Rightarrow> state" where
  "settle p r s =
     (case promises s p of
        Some _ \<Rightarrow> s
      | None \<Rightarrow>
          s\<lparr>promises := (promises s)(p \<mapsto> r),
            waiters := filter (\<lambda>(q, k). q \<noteq> p) (waiters s),
            microtasks := microtasks s @
              map (\<lambda>(q, k). (k, r)) (filter (\<lambda>(q, k). q = p) (waiters s))\<rparr>)"

text \<open>
  \<open>await p\<close>: the continuation waits for a pending promise, and is queued as a
  microtask at once for a settled one.
\<close>

definition await :: "nat \<Rightarrow> continuation \<Rightarrow> state \<Rightarrow> state" where
  "await p k s =
     (case promises s p of
        None \<Rightarrow> s\<lparr>waiters := waiters s @ [(p, k)]\<rparr>
      | Some r \<Rightarrow> s\<lparr>microtasks := microtasks s @ [(k, r)]\<rparr>)"

subsection \<open>loadInstagramScript\<close>

text \<open>\<open>document.querySelector('script[src="..."]')\<close>.\<close>

definition querySelector_script :: "config \<Rightarrow> state \<Rightarrow> script_el option" where
  "querySelector_script cfg s = find (\<lambda>e. src e = scriptSrc cfg) (doc_scripts s)"

text \<open>
  The executor of the promise. When \<open>document.body\<close> is null, \<open>appendChild\<close> throws and
  the \<open>catch\<close> branch runs.
\<close>

definition script_executor :: "config \<Rightarrow> nat \<Rightarrow> state \<Rightarrow> state" where
  "script_executor cfg p s =
     (case querySelector_script cfg s of
        Some _ \<Rightarrow> settle p Fulfilled (s\<lparr>isInstagramScriptLoaded := True\<rparr>)
      | None \<Rightarrow>
          (let s1 = emit ScriptCreated s in
           if body_present s1
           then s1\<lparr>doc_scripts := doc_scripts s1 @ [\<lparr>src = scriptSrc cfg, settles = Some p\<rparr>]\<rparr>
           else settle p Rejected
                  ((emit ErrScriptException s1)\<lparr>instagramScriptPromise := None\<rparr>)))"

definition loadInstagramScript :: "config \<Rightarrow> state \<Rightarrow> nat \<times> state" where
  "loadInstagramScript cfg s =
     (case instagramScriptPromise s of
        Some p \<Rightarrow> (p, emit (GateReturned p) s)
      | None \<Rightarrow>
          if isInstagramScriptLoaded s
          then (case new_promise s of
                  (p, s1) \<Rightarrow> (p, emit (GateReturned p) (settle p Fulfilled s1)))
          else (case new_promise s of
                  (p, s1) \<Rightarrow>
                    (p, emit (GateReturned p)
                          ((script_executor cfg p s1)\<lparr>instagramScriptPromise := Some p\<rparr>))))"

text \<open>The \<open>onload\<close> and \<open>onerror\<close> handlers of the script element that settles \<open>p\<close>.\<close>

definition script_onload :: "nat \<Rightarrow> state \<Rightarrow> state" where
  "script_onload p s = settle p Fulfilled (s\<lparr>isInstagramScriptLoaded := True\<rparr>)"

definition script_onerror :: "nat \<Rightarrow> state \<Rightarrow> state" where
  "script_onerror p s =
     settle p Rejected ((emit ErrScriptFailed s)\<lparr>instagramScriptPromise := None\<rparr>)"

subsection \<open>createInstagramEmbed and processEmbed\<close>

definition createInstagramEmbed :: "string \<Rightarrow> embed_el" where
  "createInstagramEmbed permalink =
     \<lparr>className = ''instagram-media'', instgrm_permalink = permalink,
      instgrm_version = ''14'', link_href = permalink\<rparr>"

text \<open>
  The part of \<open>processEmbed\<close> up to its \<open>await\<close>. A missing attribute is \<open>null\<close> and an
  empty one is the empty string; both are falsy.
\<close>

definition processEmbed :: "config \<Rightarrow> nat \<Rightarrow> nat \<Rightarrow> state \<Rightarrow> state" where
  "processEmbed cfg w retryCount s0 =
     (let s = emit (Called w retryCount) s0 in
      case data_permalink (nodes s w) of
        None \<Rightarrow> emit WarnInvalidWrapper s
      | Some permalink \<Rightarrow>
          if permalink = [] \<or> placeholder (nodes s w) = None
          then emit WarnInvalidWrapper s
          else (case loadInstagramScript cfg s of
                  (p, s1) \<Rightarrow> await p (AfterGate w permalink retryCount) s1))"

text \<open>The \<open>try\<close> block after the \<open>await\<close> has returned.\<close>

definition embed_loaded :: "nat \<Rightarrow> string \<Rightarrow> state \<Rightarrow> state" where
  "embed_loaded w permalink s =
     (let embed = createInstagramEmbed permalink;
          n = nodes s w;
          n1 = n\<lparr>placeholder := map_option (\<lambda>ph. ph\<lparr>display_none := True\<rparr>) (placeholder n),
                appended := appended n @ [embed],
                loaded := True\<rparr>;
          s1 = s\<lparr>nodes := (nodes s)(w := n1)\<rparr>
      in if instgrm s1 \<noteq> None then setTimeout HookProcess 100 s1 else s1)"

text \<open>The \<open>catch\<close> block, entered when the \<open>await\<close> throws.\<close>

definition embed_failed :: "config \<Rightarrow> nat \<Rightarrow> nat \<Rightarrow> state \<Rightarrow> state" where
  "embed_failed cfg w retryCount s0 =
     (let s = emit (ErrAttempt (retryCount + 1)) s0 in
      if retryCount < maxRetries cfg
      then setTimeout (Retry w (retryCount + 1)) (retryDelay cfg * (retryCount + 1)) s
      else (let s1 = emit ErrMaxRetries s; n = nodes s1 w in
            case placeholder n of
              None \<Rightarrow> s1
            | Some ph \<Rightarrow>
                (case overlay ph of
                   None \<Rightarrow> s1
                 | Some _ \<Rightarrow>
                     s1\<lparr>nodes := (nodes s1)
                          (w := n\<lparr>placeholder := Some (ph\<lparr>overlay := Some UnableToLoad\<rparr>)\<rparr>)\<rparr>)))"

definition resume :: "config \<Rightarrow> continuation \<Rightarrow> settlement \<Rightarrow> state \<Rightarrow> state" where
  "resume cfg k r s =
     (case k of AfterGate w permalink retryCount \<Rightarrow>
        (case r of
           Fulfilled \<Rightarrow> embed_loaded w permalink s
         | Rejected \<Rightarrow> embed_failed cfg w retryCount s))"

text \<open>The callback of the 100ms timer set after an insertion.\<close>

definition hook_process :: "state \<Rightarrow> state" where
  "hook_process s =
     (case instgrm s of
        None \<Rightarrow> emit ErrHook s
      | Some HookReturns \<Rightarrow> emit HookInvoked s
      | Some HookThrows \<Rightarrow> emit ErrHook (emit HookInvoked s))"

subsection \<open>Triggers\<close>

text \<open>
  The click handler of a \<open>.load-embed-btn\<close>; the argument is
  \<open>button.closest('.instagram-lazy-wrapper')\<close>.
\<close>

definition manual_click :: "config \<Rightarrow> nat option \<Rightarrow> state \<Rightarrow> state" where
  "manual_click cfg closest s =
     (case closest of
        None \<Rightarrow> s
      | Some w \<Rightarrow> if \<not> loaded (nodes s w) then processEmbed cfg w 0 s else s)"

definition initManualLoadButtons :: "state \<Rightarrow> state" where
  "initManualLoadButtons s = s\<lparr>click_bound := True\<rparr>"

definition unobserve :: "nat \<Rightarrow> state \<Rightarrow> state" where
  "unobserve w s = s\<lparr>observed := removeAll w (observed s)\<rparr>"

text \<open>The observer's callback on one entry \<open>(target, isIntersecting)\<close>.\<close>

definition observer_entry :: "config \<Rightarrow> nat \<times> bool \<Rightarrow> state \<Rightarrow> state" where
  "observer_entry cfg entry s =
     (case entry of (w, isIntersecting) \<Rightarrow>
        if isIntersecting
        then unobserve w (if \<not> loaded (nodes s w) then processEmbed cfg w 0 s else s)
        else s)"

definition observer_callback :: "config \<Rightarrow> (nat \<times> bool) list \<Rightarrow> state \<Rightarrow> state" where
  "observer_callback cfg entries s = fold (observer_entry cfg) entries s"

definition initLazyLoading :: "config \<Rightarrow> state \<Rightarrow> state" where
  "initLazyLoading cfg s =
     (let wrappers = doc_wrappers s in
      if wrappers = [] then s
      else if \<not> observer_supported s
      then fold (\<lambda>w. processEmbed cfg w 0) wrappers (emit WarnNoObserver s)
      else fold (\<lambda>w s'. s'\<lparr>observed := observed s' @ [w]\<rparr>) wrappers s)"

text \<open>\<open>a || b\<close> on numbers: \<open>0\<close> is falsy.\<close>

definition js_or :: "int \<Rightarrow> int \<Rightarrow> int" where
  "js_or a b = (if a \<noteq> 0 then a else b)"

definition isVisible :: "rect \<Rightarrow> viewport \<Rightarrow> bool" where
  "isVisible r v \<longleftrightarrow>
     rect_top r \<ge> 0 \<and> rect_left r \<ge> 0 \<and>
     rect_bottom r \<le> js_or (innerHeight v) (clientHeight v) \<and>
     rect_right r \<le> js_or (innerWidth v) (clientWidth v)"

definition preload_visit :: "config \<Rightarrow> nat \<Rightarrow> state \<Rightarrow> state" where
  "preload_visit cfg w s =
     (if isVisible (layout s w) (window s) \<and> \<not> loaded (nodes s w)
      then processEmbed cfg w 0 s else s)"

definition preloadVisibleEmbeds :: "config \<Rightarrow> state \<Rightarrow> state" where
  "preloadVisibleEmbeds cfg s = fold (preload_visit cfg) (doc_wrappers s) s"

definition init :: "config \<Rightarrow> state \<Rightarrow> state" where
  "init cfg s = (initLazyLoading cfg (initManualLoadButtons s))\<lparr>load_listener := True\<rparr>"

subsection \<open>The event loop\<close>

definition run_task :: "config \<Rightarrow> task \<Rightarrow> state \<Rightarrow> state" where
  "run_task cfg t s =
     (case t of
        Retry w n \<Rightarrow> processEmbed cfg w n s
      | HookProcess \<Rightarrow> hook_process s
      | PreloadVisible \<Rightarrow> preloadVisibleEmbeds cfg s)"

text \<open>
  The macrotasks. \<open>DomReady\<close> runs \<open>init\<close>. \<open>Click c\<close> is a click on a manual button whose
  closest wrapper is \<open>c\<close>. \<open>Intersect es\<close> is a report of the observer, which reports
  observed targets only. \<open>WindowLoad\<close> is the window's load event, which fires once.
  \<open>ScriptLoad i h\<close> and \<open>ScriptError i\<close> are the load and error events of the \<open>i\<close>-th script
  element; a script fires one of them, once, and a script that loads leaves \<open>h\<close> as
  \<open>window.instgrm\<close>. \<open>TimerFire i\<close> runs the \<open>i\<close>-th pending timer. \<open>Relayout l v\<close> is a
  scroll or resize.
\<close>

datatype event =
    DomReady
  | Click "nat option"
  | Intersect "(nat \<times> bool) list"
  | WindowLoad
  | ScriptLoad nat "hook option"
  | ScriptError nat
  | TimerFire nat
  | Relayout "nat \<Rightarrow> rect" viewport

definition handle :: "config \<Rightarrow> event \<Rightarrow> state \<Rightarrow> state" where
  "handle cfg e s =
     (case e of
        DomReady \<Rightarrow> init cfg s
      | Click c \<Rightarrow> if click_bound s then manual_click cfg c s else s
      | Intersect es \<Rightarrow>
          observer_callback cfg (filter (\<lambda>(w, b). w \<in> set (observed s)) es) s
      | WindowLoad \<Rightarrow>
          if load_listener s
          then setTimeout PreloadVisible 500 (s\<lparr>load_listener := False\<rparr>)
          else s
      | ScriptLoad i h \<Rightarrow>
          if i < length (doc_scripts s)
          then (case settles (doc_scripts s ! i) of
                  None \<Rightarrow> s\<lparr>instgrm := h\<rparr>
                | Some p \<Rightarrow>
                    if promises s p = None then script_onload p (s\<lparr>instgrm := h\<rparr>) else s)
          else s
      | ScriptError i \<Rightarrow>
          if i < length (doc_scripts s)
          then (case settles (doc_scripts s ! i) of
                  None \<Rightarrow> s
                | Some p \<Rightarrow> if promises s p = None then script_onerror p s else s)
          else s
      | TimerFire i \<Rightarrow>
          if i < length (timers s)
          then run_task cfg (snd (timers s ! i))
                 (s\<lparr>timers := take i (timers s) @ drop (Suc i) (timers s)\<rparr>)
          else s
      | Relayout l v \<Rightarrow> s\<lparr>layout := l, window := v\<rparr>)"

text \<open>Draining the microtask queue: each continuation runs in turn, first in first out.\<close>

function drain :: "config \<Rightarrow> state \<Rightarrow> state" where
  "drain cfg s =
     (case microtasks s of
        [] \<Rightarrow> s
      | (k, r) # rest \<Rightarrow> drain cfg (resume cfg k r (s\<lparr>microtasks := rest\<rparr>)))"
  by pat_completeness auto
termination
  by (relation "measure (\<lambda>(cfg, s). length (microtasks s))")
     (auto simp: resume_def embed_loaded_def embed_failed_def setTimeout_def emit_def Let_def
           split: continuation.splits settlement.splits option.splits)

declare drain.simps [simp del]

definition step :: "config \<Rightarrow> event \<Rightarrow> state \<Rightarrow> state" where
  "step cfg e s = drain cfg (handle cfg e s)"

definition run :: "config \<Rightarrow> event list \<Rightarrow> state \<Rightarrow> state" where
  "run cfg es s = fold (step cfg) es s"

text \<open>
  A page as the script finds it when it starts: no script element of the page carries a
  handler of the loader.
\<close>

definition page ::
  "(nat \<Rightarrow> wrapper_el) \<Rightarrow> nat list \<Rightarrow> string list \<Rightarrow> bool \<Rightarrow> bool \<Rightarrow> hook option \<Rightarrow>
   (nat \<Rightarrow> rect) \<Rightarrow> viewport \<Rightarrow> state" where
  "page ns ws srcs body io h l v =
     \<lparr>isInstagramScriptLoaded = False, instagramScriptPromise = None,
      promises = (\<lambda>_. None), next_promise = 0,
      body_present = body, doc_scripts = map (\<lambda>u. \<lparr>src = u, settles = None\<rparr>) srcs,
      nodes = ns, doc_wrappers = ws,
      observer_supported = io, observed = [],
      click_bound = False, load_listener = False,
      instgrm = h, layout = l, window = v,
      timers = [], waiters = [], microtasks = [], trace = []\<rparr>"

subsection \<open>Reading the trace\<close>

text \<open>The retry counts of the calls of \<open>processEmbed\<close> on the wrapper \<open>w\<close>, in order.\<close>

definition attempts :: "nat \<Rightarrow> obs list \<Rightarrow> nat list" where
  "attempts w t =
     concat (map (\<lambda>x. case x of Called v n \<Rightarrow> (if v = w then [n] else []) | _ \<Rightarrow> []) t)"

text \<open>The timers set, in order, each with its delay.\<close>

definition scheduled :: "obs list \<Rightarrow> (nat \<times> task) list" where
  "scheduled t = concat (map (\<lambda>x. case x of TimerSet d k \<Rightarrow> [(d, k)] | _ \<Rightarrow> []) t)"

text \<open>The promises that \<open>loadInstagramScript\<close> returned, in order.\<close>

definition gate_returns :: "obs list \<Rightarrow> nat list" where
  "gate_returns t = concat (map (\<lambda>x. case x of GateReturned p \<Rightarrow> [p] | _ \<Rightarrow> []) t)"

text \<open>The script elements of the document that the loader appended.\<close>

definition injected :: "state \<Rightarrow> script_el list" where
  "injected s = filter (\<lambda>e. settles e \<noteq> None) (doc_scripts s)"

text \<open>
  \<open>loadInstagramScript\<close> is bound to return a rejected promise: it holds one, or it has
  none, finds no script element to reuse and has no body to append one to.
\<close>

definition gate_broken :: "config \<Rightarrow> state \<Rightarrow> bool" where
  "gate_broken cfg s =
     (case instagramScriptPromise s of
        Some p \<Rightarrow> promises s p = Some Rejected
      | None \<Rightarrow>
          \<not> isInstagramScriptLoaded s \<and> querySelector_script cfg s = None \<and>
          \<not> body_present s)"


text \<open>The wrapper has a placeholder with an overlay in it.\<close>

definition has_overlay :: "wrapper_el \<Rightarrow> bool" where
  "has_overlay n =
     (case placeholder n of None \<Rightarrow> False | Some ph \<Rightarrow> overlay ph \<noteq> None)"

subsection \<open>Invariants of the event loop\<close>

text \<open>
  The promise that the gate holds is the one every call so far has returned; a gate that
  holds none has neither set the loaded flag nor created a script element; at most one
  script element has been created, and at most one is in the document.
\<close>

definition gate_inv :: "state \<Rightarrow> bool" where
  "gate_inv s \<longleftrightarrow>
     (\<forall>p \<in> set (gate_returns (trace s)). instagramScriptPromise s = Some p) \<and>
     (instagramScriptPromise s = None \<longrightarrow>
        \<not> isInstagramScriptLoaded s \<and> injected s = [] \<and> ScriptCreated \<notin> set (trace s)) \<and>
     length (filter (\<lambda>x. x = ScriptCreated) (trace s)) \<le> 1 \<and>
     length (injected s) \<le> 1"

text \<open>The retry count carried by a call recorded in the trace, by a timer, by a continuation.\<close>

fun obs_retry :: "obs \<Rightarrow> nat" where
  "obs_retry (Called w n) = n"
| "obs_retry _ = 0"

fun task_retry :: "task \<Rightarrow> nat" where
  "task_retry (Retry w n) = n"
| "task_retry _ = 0"

fun cont_retry :: "continuation \<Rightarrow> nat" where
  "cont_retry (AfterGate w permalink n) = n"

text \<open>No retry count anywhere in the state exceeds \<open>maxRetries\<close>.\<close>

definition retry_bounded :: "config \<Rightarrow> state \<Rightarrow> bool" where
  "retry_bounded cfg s \<longleftrightarrow>
     (\<forall>x \<in> set (trace s). obs_retry x \<le> maxRetries cfg) \<and>
     (\<forall>(d, t) \<in> set (timers s). task_retry t \<le> maxRetries cfg) \<and>
     (\<forall>(p, k) \<in> set (waiters s). cont_retry k \<le> maxRetries cfg) \<and>
     (\<forall>(k, r) \<in> set (microtasks s). cont_retry k \<le> maxRetries cfg)"

text \<open>
  The law of the retry timers: a retry is set for a count from 1 to \<open>maxRetries\<close>, with the
  delay \<open>retryDelay\<close> times the count.
\<close>

fun timer_law :: "config \<Rightarrow> obs \<Rightarrow> bool" where
  "timer_law cfg (TimerSet d (Retry w n)) =
     (1 \<le> n \<and> n \<le> maxRetries cfg \<and> d = retryDelay cfg * n)"
| "timer_law cfg _ = True"

definition timers_lawful :: "config \<Rightarrow> state \<Rightarrow> bool" where
  "timers_lawful cfg s \<longleftrightarrow> (\<forall>x \<in> set (trace s). timer_law cfg x)"

subsection \<open>Example pages\<close>

definition demo_wrapper :: wrapper_el where
  "demo_wrapper =
     \<lparr>data_permalink = Some ''https://www.instagram.com/p/abc/'',
      placeholder = Some \<lparr>display_none = False, overlay = Some PageMarkup\<rparr>,
      appended = [], loaded = False\<rparr>"

definition demo_rect :: rect where
  "demo_rect = \<lparr>rect_top = 10, rect_left = 10, rect_bottom = 400, rect_right = 336\<rparr>"

definition demo_viewport :: viewport where
  "demo_viewport = \<lparr>innerHeight = 800, clientHeight = 800, innerWidth = 1200, clientWidth = 1200\<rparr>"

text \<open>One wrapper, fully in the viewport; an observer; no embed script in the page.\<close>

definition demo_page :: state where
  "demo_page =
     page (\<lambda>_. demo_wrapper) [0] [] True True None (\<lambda>_. demo_rect) demo_viewport"

text \<open>The same page in a document without a body.\<close>

definition bodyless_page :: state where
  "bodyless_page =
     page (\<lambda>_. demo_wrapper) [0] [] False True None (\<lambda>_. demo_rect) demo_viewport"

text \<open>The same page with the embed script already in it.\<close>

definition prescripted_page :: state where
  "prescripted_page =
     page (\<lambda>_. demo_wrapper) [0] [''https://www.instagram.com/embed.js''] True True
       (Some HookThrows) (\<lambda>_. demo_rect) demo_viewport"

subsection \<open>Basic facts\<close>

text \<open>
  Unfolding the drain of the microtask queue.
\<close>

lemma drain_Nil: "microtasks s = [] \<Longrightarrow> drain cfg s = s"
  by (subst drain.simps) simp

lemma drain_Cons:
  "microtasks s = (k, r) # rest \<Longrightarrow>
   drain cfg s = drain cfg (resume cfg k r (s\<lparr>microtasks := rest\<rparr>))"
  by (subst drain.simps) simp

lemma run_Nil [simp]: "run cfg [] s = s"
  by (simp add: run_def)

lemma run_Cons [simp]: "run cfg (e # es) s = run cfg es (step cfg e s)"
  by (simp add: run_def)

text \<open>
  A property kept by every pass of a \<open>forEach\<close> is kept by the loop.
\<close>

lemma fold_preserves:
  assumes "\<And>x s. P s \<Longrightarrow> P (f x s)" and "P s"
  shows "P (fold f xs s)"
  using assms(2) by (induction xs arbitrary: s) (simp_all add: assms(1))

text \<open>
  A property kept by every continuation is kept by the drain of the microtask queue.
\<close>

lemma drain_preserves:
  assumes "\<And>k r rest s. P s \<Longrightarrow> microtasks s = (k, r) # rest \<Longrightarrow>
             P (resume cfg k r (s\<lparr>microtasks := rest\<rparr>))"
    and "P s"
  shows "P (drain cfg s)"
  using assms
proof (induction cfg s rule: drain.induct)
  case (1 cfg s)
  show ?case
  proof (cases "microtasks s")
    case Nil
    then show ?thesis using "1.prems"(2) by (simp add: drain_Nil)
  next
    case (Cons m rest)
    obtain k r where m: "m = (k, r)" by (cases m)
    have "P (resume cfg k r (s\<lparr>microtasks := rest\<rparr>))"
      using "1.prems" Cons m by simp
    then have "P (drain cfg (resume cfg k r (s\<lparr>microtasks := rest\<rparr>)))"
      using "1.IH" [OF Cons m [symmetric]] "1.prems"(1) by simp
    then show ?thesis using Cons m by (simp add: drain_Cons)
  qed
qed

text \<open>
  The definitions of the loader, of the example pages and of the readings of the trace,
  for evaluation by the simplifier.
\<close>

lemmas loader_defs =
  run_def step_def handle_def init_def initLazyLoading_def initManualLoadButtons_def
  observer_callback_def observer_entry_def unobserve_def manual_click_def
  preloadVisibleEmbeds_def preload_visit_def isVisible_def js_or_def run_task_def
  hook_process_def processEmbed_def loadInstagramScript_def script_executor_def
  querySelector_script_def script_onload_def script_onerror_def new_promise_def
  settle_def await_def resume_def embed_loaded_def embed_failed_def
  createInstagramEmbed_def setTimeout_def emit_def Let_def

lemmas demo_defs =
  CONFIG_def page_def demo_page_def bodyless_page_def prescripted_page_def
  demo_wrapper_def demo_rect_def demo_viewport_def

lemmas trace_defs = attempts_def scheduled_def gate_returns_def injected_def

lemma gate_broken_timers [simp]: "gate_broken cfg (s\<lparr>timers := ts\<rparr>) = gate_broken cfg s"
  by (simp add: gate_broken_def querySelector_script_def split: option.splits)

subsection \<open>Validation of the wrapper\<close>

text \<open>
  Claim C7. On a node without the permalink attribute or without the inner placeholder,
  \<open>processEmbed\<close> returns after one warning: the state is the state before but for the
  trace, which gains the call and the warning. So the script is not requested, the DOM is
  as before, no timer is set and no continuation waits.
\<close>

theorem invalid_wrapper_aborts:
  assumes "data_permalink (nodes s w) = None \<or> placeholder (nodes s w) = None"
  shows "processEmbed cfg w retryCount s =
           s\<lparr>trace := trace s @ [Called w retryCount, WarnInvalidWrapper]\<rparr>"
  using assms by (auto simp: processEmbed_def emit_def Let_def split: option.splits)

text \<open>
  Claim C7 on the example page with the placeholder taken out, at retry count 2.
\<close>

theorem invalid_wrapper_aborts_witness:
  "(data_permalink (nodes (demo_page\<lparr>nodes := (\<lambda>_. demo_wrapper\<lparr>placeholder := None\<rparr>)\<rparr>) 0) = None \<or>
    placeholder (nodes (demo_page\<lparr>nodes := (\<lambda>_. demo_wrapper\<lparr>placeholder := None\<rparr>)\<rparr>) 0) = None) \<and>
   processEmbed CONFIG 0 2 (demo_page\<lparr>nodes := (\<lambda>_. demo_wrapper\<lparr>placeholder := None\<rparr>)\<rparr>) =
     (demo_page\<lparr>nodes := (\<lambda>_. demo_wrapper\<lparr>placeholder := None\<rparr>)\<rparr>)
       \<lparr>trace := [Called 0 2, WarnInvalidWrapper]\<rparr>"
  using invalid_wrapper_aborts [of "demo_page\<lparr>nodes := (\<lambda>_. demo_wrapper\<lparr>placeholder := None\<rparr>)\<rparr>" 0 CONFIG 2]
  by (simp add: demo_defs)

subsection \<open>A script element already in the page\<close>

text \<open>
  Claim C9. When the gate holds no promise, the loaded flag is unset and the document has
  a script element with the configured source, \<open>loadInstagramScript\<close> returns a promise
  that is fulfilled already, sets the loaded flag, keeps the promise, and leaves the script
  elements of the document as they are: nothing is appended and no handler waits for the
  load event of the element found.
\<close>

theorem existing_script_assumed_ready:
  assumes "instagramScriptPromise s = None" and "\<not> isInstagramScriptLoaded s"
    and "querySelector_script cfg s \<noteq> None"
  shows "promises (snd (loadInstagramScript cfg s)) (fst (loadInstagramScript cfg s)) = Some Fulfilled
       \<and> isInstagramScriptLoaded (snd (loadInstagramScript cfg s))
       \<and> instagramScriptPromise (snd (loadInstagramScript cfg s)) = Some (fst (loadInstagramScript cfg s))
       \<and> doc_scripts (snd (loadInstagramScript cfg s)) = doc_scripts s
       \<and> trace (snd (loadInstagramScript cfg s)) = trace s @ [GateReturned (fst (loadInstagramScript cfg s))]"
  using assms
  by (auto simp: loadInstagramScript_def script_executor_def new_promise_def settle_def emit_def
      querySelector_script_def split: option.splits)

text \<open>
  Claim C9 on the example page that contains the embed script.
\<close>

theorem existing_script_assumed_ready_witness:
  "instagramScriptPromise prescripted_page = None \<and> \<not> isInstagramScriptLoaded prescripted_page
   \<and> querySelector_script CONFIG prescripted_page \<noteq> None
   \<and> promises (snd (loadInstagramScript CONFIG prescripted_page)) 0 = Some Fulfilled
   \<and> isInstagramScriptLoaded (snd (loadInstagramScript CONFIG prescripted_page))
   \<and> length (doc_scripts (snd (loadInstagramScript CONFIG prescripted_page))) = 1
   \<and> trace (snd (loadInstagramScript CONFIG prescripted_page)) = [GateReturned 0]"
  using existing_script_assumed_ready [of prescripted_page CONFIG]
  by (simp add: demo_defs loader_defs)

subsection \<open>A failed script load\<close>

text \<open>
  Claim C6, on the example page. After the error event of the injected script the flag is
  unset, the gate holds no promise and the waiter's promise is rejected. The next call,
  made by the retry timer, finds the failed script element still in the document: it sets
  the loaded flag and returns a fulfilled promise, and no second script element is created,
  so the script is not fetched again.
\<close>

theorem failed_script_is_reused_not_refetched:
  "\<not> isInstagramScriptLoaded (run CONFIG [DomReady, Intersect [(0, True)], ScriptError 0] demo_page)
   \<and> instagramScriptPromise (run CONFIG [DomReady, Intersect [(0, True)], ScriptError 0] demo_page) = None
   \<and> promises (run CONFIG [DomReady, Intersect [(0, True)], ScriptError 0] demo_page) 0 = Some Rejected
   \<and> isInstagramScriptLoaded (run CONFIG [DomReady, Intersect [(0, True)], ScriptError 0, TimerFire 0] demo_page)
   \<and> promises (run CONFIG [DomReady, Intersect [(0, True)], ScriptError 0, TimerFire 0] demo_page) 1 = Some Fulfilled
   \<and> doc_scripts (run CONFIG [DomReady, Intersect [(0, True)], ScriptError 0, TimerFire 0] demo_page) =
       [\<lparr>src = scriptSrc CONFIG, settles = Some 0\<rparr>]
   \<and> trace (run CONFIG [DomReady, Intersect [(0, True)], ScriptError 0, TimerFire 0] demo_page) =
       [Called 0 0, ScriptCreated, GateReturned 0, ErrScriptFailed, ErrAttempt 1, TimerSet 1000 (Retry 0 1),
        Called 0 1, GateReturned 1]
   \<and> loaded (nodes (run CONFIG [DomReady, Intersect [(0, True)], ScriptError 0, TimerFire 0] demo_page) 0)"
  by (simp add: demo_defs loader_defs trace_defs drain_Nil drain_Cons)

subsection \<open>The hook\<close>

text \<open>
  Claim C8. An insertion marks the wrapper loaded, appends the embed, and sets the 100ms
  timer of the hook only if \<open>window.instgrm\<close> is there. When that timer fires, whether
  the hook returns, throws or is gone, the nodes are as before (the wrapper stays loaded,
  with its embed), the only change to the timers is that this one is removed (no retry
  is set), no continuation is queued, and a throw shows as one logged error.
\<close>

theorem hook_is_best_effort:
  assumes "i < length (timers s)" and "snd (timers s ! i) = HookProcess" and "microtasks s = []"
  shows "nodes (step cfg (TimerFire i) s) = nodes s
       \<and> timers (step cfg (TimerFire i) s) = take i (timers s) @ drop (Suc i) (timers s)
       \<and> waiters (step cfg (TimerFire i) s) = waiters s
       \<and> microtasks (step cfg (TimerFire i) s) = []
       \<and> trace (step cfg (TimerFire i) s) =
           trace s @ (case instgrm s of
                        None \<Rightarrow> [ErrHook]
                      | Some HookReturns \<Rightarrow> [HookInvoked]
                      | Some HookThrows \<Rightarrow> [HookInvoked, ErrHook])
       \<and> loaded (nodes (embed_loaded w permalink s) w)
       \<and> appended (nodes (embed_loaded w permalink s) w) =
           appended (nodes s w) @ [createInstagramEmbed permalink]
       \<and> timers (embed_loaded w permalink s) =
           timers s @ (if instgrm s = None then [] else [(100, HookProcess)])"
  using assms
  by (auto simp: step_def handle_def run_task_def hook_process_def emit_def drain_Nil
      embed_loaded_def setTimeout_def Let_def split: option.splits hook.splits)

text \<open>
  Claim C8 on the example page with a throwing hook, after the wrapper has been loaded.
\<close>

theorem hook_is_best_effort_witness:
  "0 < length (timers (run CONFIG [DomReady, Intersect [(0, True)]] prescripted_page))
   \<and> snd (timers (run CONFIG [DomReady, Intersect [(0, True)]] prescripted_page) ! 0) = HookProcess
   \<and> microtasks (run CONFIG [DomReady, Intersect [(0, True)]] prescripted_page) = []
   \<and> instgrm (run CONFIG [DomReady, Intersect [(0, True)]] prescripted_page) = Some HookThrows
   \<and> loaded (nodes (run CONFIG [DomReady, Intersect [(0, True)]] prescripted_page) 0)
   \<and> nodes (step CONFIG (TimerFire 0) (run CONFIG [DomReady, Intersect [(0, True)]] prescripted_page))
       = nodes (run CONFIG [DomReady, Intersect [(0, True)]] prescripted_page)
   \<and> timers (step CONFIG (TimerFire 0) (run CONFIG [DomReady, Intersect [(0, True)]] prescripted_page)) = []"
  using hook_is_best_effort [of 0 "run CONFIG [DomReady, Intersect [(0, True)]] prescripted_page" CONFIG 0 "''x''"]
  by (simp add: demo_defs loader_defs drain_Nil drain_Cons)

subsection \<open>Terminal failure\<close>

text \<open>
  Claim C10. When the retry budget is used up, the \<open>catch\<close> block writes the error
  message into the overlay if the wrapper has a placeholder with an overlay; otherwise
  the nodes are as before. In both cases the script elements and the timers are as
  before, and the trace gains the two logged errors only.
\<close>

theorem terminal_failure_overlay:
  assumes "\<not> retryCount < maxRetries cfg"
  shows "(has_overlay (nodes s w) \<longrightarrow>
            (\<exists>ph. placeholder (nodes s w) = Some ph \<and>
               nodes (embed_failed cfg w retryCount s) =
                 (nodes s)(w := (nodes s w)\<lparr>placeholder := Some (ph\<lparr>overlay := Some UnableToLoad\<rparr>)\<rparr>)))
       \<and> (\<not> has_overlay (nodes s w) \<longrightarrow> nodes (embed_failed cfg w retryCount s) = nodes s)
       \<and> doc_scripts (embed_failed cfg w retryCount s) = doc_scripts s
       \<and> timers (embed_failed cfg w retryCount s) = timers s
       \<and> trace (embed_failed cfg w retryCount s) = trace s @ [ErrAttempt (retryCount + 1), ErrMaxRetries]"
  using assms
  by (auto simp: embed_failed_def has_overlay_def emit_def Let_def split: option.splits)

text \<open>
  Claim C10 at retry count 3, on the example page without and with an overlay.
\<close>

theorem terminal_failure_overlay_witness:
  "\<not> 3 < maxRetries CONFIG
   \<and> \<not> has_overlay (nodes (demo_page\<lparr>nodes := (\<lambda>_. demo_wrapper\<lparr>placeholder := Some \<lparr>display_none = False, overlay = None\<rparr>\<rparr>)\<rparr>) 0)
   \<and> nodes (embed_failed CONFIG 0 3 (demo_page\<lparr>nodes := (\<lambda>_. demo_wrapper\<lparr>placeholder := Some \<lparr>display_none = False, overlay = None\<rparr>\<rparr>)\<rparr>))
       = (\<lambda>_. demo_wrapper\<lparr>placeholder := Some \<lparr>display_none = False, overlay = None\<rparr>\<rparr>)
   \<and> has_overlay (nodes demo_page 0)
   \<and> overlay (the (placeholder (nodes (embed_failed CONFIG 0 3 demo_page) 0))) = Some UnableToLoad
   \<and> timers (embed_failed CONFIG 0 3 demo_page) = []"
  using terminal_failure_overlay [of 3 CONFIG "demo_page\<lparr>nodes := (\<lambda>_. demo_wrapper\<lparr>placeholder := Some \<lparr>display_none = False, overlay = None\<rparr>\<rparr>)\<rparr>" 0]
    terminal_failure_overlay [of 3 CONFIG demo_page 0]
  by (simp add: demo_defs has_overlay_def)

subsection \<open>The retry chain\<close>






text \<open>
  Every handler and every continuation sets retry timers by the law only.
\<close>

lemma timers_lawful_trace:
  "trace s' = trace s \<Longrightarrow> timers_lawful cfg s' = timers_lawful cfg s"
  by (simp add: timers_lawful_def)

lemma timers_lawful_emit [simp]:
  "timers_lawful cfg (emit x s) \<longleftrightarrow> timers_lawful cfg s \<and> timer_law cfg x"
  by (auto simp: timers_lawful_def emit_def)






lemma timers_lawful_frame [simp]:
  "timers_lawful cfg (s\<lparr>observed := ob\<rparr>) = timers_lawful cfg s"
  "timers_lawful cfg (s\<lparr>click_bound := b\<rparr>) = timers_lawful cfg s"
  "timers_lawful cfg (s\<lparr>load_listener := b\<rparr>) = timers_lawful cfg s"
  "timers_lawful cfg (s\<lparr>instgrm := h\<rparr>) = timers_lawful cfg s"
  "timers_lawful cfg (s\<lparr>layout := l\<rparr>) = timers_lawful cfg s"
  "timers_lawful cfg (s\<lparr>window := v\<rparr>) = timers_lawful cfg s"
  "timers_lawful cfg (s\<lparr>timers := ts\<rparr>) = timers_lawful cfg s"
  "timers_lawful cfg (s\<lparr>microtasks := ms\<rparr>) = timers_lawful cfg s"
  "timers_lawful cfg (s\<lparr>isInstagramScriptLoaded := b\<rparr>) = timers_lawful cfg s"
  "timers_lawful cfg (s\<lparr>instagramScriptPromise := q\<rparr>) = timers_lawful cfg s"
  by (simp_all add: timers_lawful_def)

lemma timers_lawful_settle [simp]: "timers_lawful cfg (settle p r s) = timers_lawful cfg s"
  by (simp add: timers_lawful_def settle_def split: option.splits)













subsection \<open>The loaded mark\<close>

text \<open>
  The three triggers check the loaded mark before they call \<open>processEmbed\<close>: on a wrapper
  marked loaded, the click handler and the eager scan leave the state as it is, and the
  observer's callback only stops observing the wrapper.
\<close>

lemma triggers_skip_loaded_wrapper:
  assumes "loaded (nodes s w)"
  shows "manual_click cfg (Some w) s = s
       \<and> observer_entry cfg (w, True) s = unobserve w s
       \<and> preload_visit cfg w s = s"
  using assms by (simp add: manual_click_def observer_entry_def preload_visit_def)

text \<open>
  The same on the example page after the wrapper has been loaded.
\<close>

lemma triggers_skip_loaded_wrapper_example:
  "loaded (nodes (run CONFIG [DomReady, Intersect [(0, True)]] prescripted_page) 0)
   \<and> manual_click CONFIG (Some 0) (run CONFIG [DomReady, Intersect [(0, True)]] prescripted_page)
       = run CONFIG [DomReady, Intersect [(0, True)]] prescripted_page
   \<and> preload_visit CONFIG 0 (run CONFIG [DomReady, Intersect [(0, True)]] prescripted_page)
       = run CONFIG [DomReady, Intersect [(0, True)]] prescripted_page"
  using triggers_skip_loaded_wrapper [of "run CONFIG [DomReady, Intersect [(0, True)]] prescripted_page" 0 CONFIG]
  by (simp add: demo_defs loader_defs drain_Nil drain_Cons)

text \<open>
  Claim C1, on the example page. The callback of the retry timer calls \<open>processEmbed\<close>
  without the check of the loaded mark that the three triggers make. The first attempt
  fails with the script, which sets the retry timer; a click then loads the wrapper, with
  one embed; the retry timer then calls \<open>processEmbed\<close> on the loaded wrapper, which asks
  the gate once more and appends a second embed.
\<close>

theorem retry_reinserts_into_loaded_wrapper:
  "loaded (nodes (run CONFIG [DomReady, Intersect [(0, True)], ScriptError 0, Click (Some 0)] demo_page) 0)
   \<and> length (appended (nodes (run CONFIG [DomReady, Intersect [(0, True)], ScriptError 0, Click (Some 0)] demo_page) 0)) = 1
   \<and> timers (run CONFIG [DomReady, Intersect [(0, True)], ScriptError 0, Click (Some 0)] demo_page) = [(1000, Retry 0 1)]
   \<and> length (appended (nodes (step CONFIG (TimerFire 0)
        (run CONFIG [DomReady, Intersect [(0, True)], ScriptError 0, Click (Some 0)] demo_page)) 0)) = 2
   \<and> gate_returns (trace (step CONFIG (TimerFire 0)
        (run CONFIG [DomReady, Intersect [(0, True)], ScriptError 0, Click (Some 0)] demo_page))) = [0, 1, 1]"
  by (simp add: demo_defs loader_defs trace_defs drain_Nil drain_Cons)

subsection \<open>One script element, one promise\<close>

lemma filter_created_Nil: "ScriptCreated \<notin> set t \<Longrightarrow> filter (\<lambda>x. x = ScriptCreated) t = []"
  by (induction t) auto

text \<open>
  Every handler and every continuation keeps the invariant of the gate, as long as no
  script fails to load.
\<close>

lemma gate_inv_processEmbed: "gate_inv s \<Longrightarrow> gate_inv (processEmbed cfg w n s)"
  by (auto simp: gate_inv_def processEmbed_def loadInstagramScript_def script_executor_def
      querySelector_script_def new_promise_def settle_def await_def emit_def Let_def
      gate_returns_def injected_def filter_created_Nil
      split: option.splits if_splits)

lemma gate_inv_resume: "gate_inv s \<Longrightarrow> gate_inv (resume cfg k r (s\<lparr>microtasks := ms\<rparr>))"
  by (auto simp: gate_inv_def resume_def embed_loaded_def embed_failed_def setTimeout_def emit_def
      Let_def gate_returns_def injected_def
      split: option.splits continuation.splits settlement.splits)

lemma gate_inv_frame [simp]:
  "gate_inv (s\<lparr>observed := ob\<rparr>) = gate_inv s"
  "gate_inv (s\<lparr>click_bound := b\<rparr>) = gate_inv s"
  "gate_inv (s\<lparr>load_listener := b\<rparr>) = gate_inv s"
  "gate_inv (s\<lparr>instgrm := h\<rparr>) = gate_inv s"
  "gate_inv (s\<lparr>layout := l\<rparr>) = gate_inv s"
  "gate_inv (s\<lparr>window := v\<rparr>) = gate_inv s"
  "gate_inv (s\<lparr>timers := ts\<rparr>) = gate_inv s"
  "gate_inv (s\<lparr>microtasks := ms\<rparr>) = gate_inv s"
  by (simp_all add: gate_inv_def injected_def)

lemma gate_inv_emit:
  assumes "x \<noteq> ScriptCreated" and "\<And>p. x \<noteq> GateReturned p"
  shows "gate_inv (emit x s) = gate_inv s"
  using assms by (cases x) (auto simp: gate_inv_def injected_def emit_def gate_returns_def)

lemma gate_inv_setTimeout [simp]: "gate_inv (setTimeout t d s) = gate_inv s"
  by (simp add: setTimeout_def gate_inv_emit)

lemma gate_inv_hook_process: "gate_inv s \<Longrightarrow> gate_inv (hook_process s)"
  by (simp add: hook_process_def gate_inv_emit split: option.splits hook.splits)

lemma gate_inv_manual_click: "gate_inv s \<Longrightarrow> gate_inv (manual_click cfg c s)"
  by (simp add: manual_click_def gate_inv_processEmbed split: option.splits)

lemma gate_inv_observer_entry: "gate_inv s \<Longrightarrow> gate_inv (observer_entry cfg e s)"
  by (cases e) (simp add: observer_entry_def unobserve_def gate_inv_processEmbed)

lemma gate_inv_preload_visit: "gate_inv s \<Longrightarrow> gate_inv (preload_visit cfg w s)"
  by (simp add: preload_visit_def gate_inv_processEmbed)

lemma gate_inv_fold:
  assumes "\<And>x s. gate_inv s \<Longrightarrow> gate_inv (f x s)" and "gate_inv s"
  shows "gate_inv (fold f xs s)"
  using assms by (rule fold_preserves)

lemma gate_inv_init: "gate_inv s \<Longrightarrow> gate_inv (init cfg s)"
  by (auto simp: init_def initLazyLoading_def initManualLoadButtons_def Let_def gate_inv_emit
      intro!: gate_inv_fold gate_inv_processEmbed)

lemma gate_inv_run_task: "gate_inv s \<Longrightarrow> gate_inv (run_task cfg t s)"
  by (cases t)
     (auto simp: run_task_def preloadVisibleEmbeds_def
      intro: gate_inv_processEmbed gate_inv_hook_process gate_inv_fold gate_inv_preload_visit)

lemma injected_member:
  assumes "i < length (doc_scripts s)" and "settles (doc_scripts s ! i) = Some p"
  shows "injected s \<noteq> []"
proof -
  have "doc_scripts s ! i \<in> set (injected s)"
    using assms by (simp add: injected_def)
  then show ?thesis by auto
qed

lemma gate_inv_script_onload:
  assumes "gate_inv s" and "injected s \<noteq> []"
  shows "gate_inv (script_onload p s)"
  using assms
  by (auto simp: gate_inv_def script_onload_def settle_def injected_def split: option.splits)

lemma gate_inv_handle:
  assumes "gate_inv s" and "\<And>i. e \<noteq> ScriptError i"
  shows "gate_inv (handle cfg e s)"
proof (cases e)
  case DomReady
  then show ?thesis using assms(1) by (simp add: handle_def gate_inv_init)
next
  case (Click c)
  then show ?thesis using assms(1) by (simp add: handle_def gate_inv_manual_click)
next
  case (Intersect es)
  then show ?thesis using assms(1)
    by (auto simp: handle_def observer_callback_def intro: gate_inv_fold gate_inv_observer_entry)
next
  case WindowLoad
  then show ?thesis using assms(1) by (simp add: handle_def)
next
  case (ScriptLoad i h)
  show ?thesis
  proof (cases "i < length (doc_scripts s)")
    case False
    then show ?thesis using assms(1) ScriptLoad by (simp add: handle_def)
  next
    case True
    then show ?thesis
      using assms(1) ScriptLoad injected_member [OF True]
      by (auto simp: handle_def injected_def split: option.splits
          intro!: gate_inv_script_onload)
  qed
next
  case (ScriptError i)
  then show ?thesis using assms(2) by simp
next
  case (TimerFire i)
  then show ?thesis using assms(1) by (simp add: handle_def gate_inv_run_task)
next
  case (Relayout l v)
  then show ?thesis using assms(1) by (simp add: handle_def)
qed

lemma gate_inv_step:
  assumes "gate_inv s" and "\<And>i. e \<noteq> ScriptError i"
  shows "gate_inv (step cfg e s)"
  unfolding step_def
  by (rule drain_preserves [where P = gate_inv])
     (simp_all add: gate_inv_resume gate_inv_handle [OF assms])

lemma gate_inv_run:
  assumes "gate_inv s" and "\<forall>e \<in> set es. \<forall>i. e \<noteq> ScriptError i"
  shows "gate_inv (run cfg es s)"
  using assms by (induction es arbitrary: s) (simp_all add: gate_inv_step)

lemma gate_inv_page: "gate_inv (page ns ws srcs body io h l v)"
  by (simp add: gate_inv_def page_def gate_returns_def injected_def filter_empty_conv)

text \<open>
  Claim C2. From a fresh page, over any sequence of events without a script error,
  whatever the number of calls of \<open>loadInstagramScript\<close>: at most one script element is
  created, at most one script element of the loader is in the document, and every call
  has returned the one promise that the gate holds, so that all callers see the one
  settlement of that promise.
\<close>

theorem one_script_one_outcome:
  assumes "\<forall>e \<in> set es. \<forall>i. e \<noteq> ScriptError i"
  shows "length (filter (\<lambda>x. x = ScriptCreated)
                  (trace (run cfg es (page ns ws srcs body io h l v)))) \<le> 1
       \<and> length (injected (run cfg es (page ns ws srcs body io h l v))) \<le> 1
       \<and> (\<forall>p \<in> set (gate_returns (trace (run cfg es (page ns ws srcs body io h l v)))).
            instagramScriptPromise (run cfg es (page ns ws srcs body io h l v)) = Some p)"
  using gate_inv_run [OF gate_inv_page assms, of cfg ns ws srcs body io h l v]
  by (simp add: gate_inv_def)

text \<open>
  Claim C2 on the example page: the observer, a click and the eager scan each call the
  gate while the script loads; the three calls return promise 0, one script element is
  injected, and the promise is fulfilled when the script has loaded.
\<close>

theorem one_script_one_outcome_witness:
  "gate_returns (trace (run CONFIG [DomReady, Intersect [(0, True)], Click (Some 0), WindowLoad,
         TimerFire 0, ScriptLoad 0 (Some HookReturns)] demo_page)) = [0, 0, 0]
   \<and> instagramScriptPromise (run CONFIG [DomReady, Intersect [(0, True)], Click (Some 0), WindowLoad,
         TimerFire 0, ScriptLoad 0 (Some HookReturns)] demo_page) = Some 0
   \<and> promises (run CONFIG [DomReady, Intersect [(0, True)], Click (Some 0), WindowLoad,
         TimerFire 0, ScriptLoad 0 (Some HookReturns)] demo_page) 0 = Some Fulfilled
   \<and> length (injected (run CONFIG [DomReady, Intersect [(0, True)], Click (Some 0), WindowLoad,
         TimerFire 0, ScriptLoad 0 (Some HookReturns)] demo_page)) = 1
   \<and> length (filter (\<lambda>x. x = ScriptCreated) (trace (run CONFIG [DomReady, Intersect [(0, True)],
         Click (Some 0), WindowLoad, TimerFire 0, ScriptLoad 0 (Some HookReturns)] demo_page))) = 1"
  using one_script_one_outcome [of "[DomReady, Intersect [(0, True)], Click (Some 0), WindowLoad,
         TimerFire 0, ScriptLoad 0 (Some HookReturns)]" CONFIG "\<lambda>_. demo_wrapper" "[0]" "[]" True True None
         "\<lambda>_. demo_rect" demo_viewport]
  by (simp add: demo_defs loader_defs trace_defs drain_Nil drain_Cons)

subsection \<open>The range of the retry count, and its restart\<close>

text \<open>
  Every handler and every continuation keeps the retry counts within \<open>maxRetries\<close>.
\<close>

lemma retry_bounded_frame [simp]:
  "retry_bounded cfg (s\<lparr>observed := ob\<rparr>) = retry_bounded cfg s"
  "retry_bounded cfg (s\<lparr>click_bound := b\<rparr>) = retry_bounded cfg s"
  "retry_bounded cfg (s\<lparr>load_listener := b\<rparr>) = retry_bounded cfg s"
  "retry_bounded cfg (s\<lparr>instgrm := h\<rparr>) = retry_bounded cfg s"
  "retry_bounded cfg (s\<lparr>layout := l\<rparr>) = retry_bounded cfg s"
  "retry_bounded cfg (s\<lparr>window := v\<rparr>) = retry_bounded cfg s"
  "retry_bounded cfg (s\<lparr>isInstagramScriptLoaded := b\<rparr>) = retry_bounded cfg s"
  "retry_bounded cfg (s\<lparr>instagramScriptPromise := q\<rparr>) = retry_bounded cfg s"
  "retry_bounded cfg (s\<lparr>doc_scripts := ds\<rparr>) = retry_bounded cfg s"
  "retry_bounded cfg (s\<lparr>nodes := ns\<rparr>) = retry_bounded cfg s"
  "retry_bounded cfg (s\<lparr>promises := ps\<rparr>) = retry_bounded cfg s"
  "retry_bounded cfg (s\<lparr>next_promise := np\<rparr>) = retry_bounded cfg s"
  by (simp_all add: retry_bounded_def)

lemma retry_bounded_emit [simp]:
  "retry_bounded cfg (emit x s) \<longleftrightarrow> retry_bounded cfg s \<and> obs_retry x \<le> maxRetries cfg"
  by (auto simp: retry_bounded_def emit_def)

lemma retry_bounded_settle: "retry_bounded cfg s \<Longrightarrow> retry_bounded cfg (settle p r s)"
  by (auto simp: retry_bounded_def settle_def split: option.splits)

lemma retry_bounded_await:
  "retry_bounded cfg s \<Longrightarrow> cont_retry k \<le> maxRetries cfg \<Longrightarrow>
   retry_bounded cfg (await p k s)"
  by (auto simp: retry_bounded_def await_def split: option.splits)

lemma retry_bounded_gate:
  "retry_bounded cfg s \<Longrightarrow> retry_bounded cfg (snd (loadInstagramScript cfg s))"
  by (auto simp: loadInstagramScript_def script_executor_def new_promise_def Let_def
      retry_bounded_settle split: option.splits)

lemma retry_bounded_processEmbed:
  assumes "retry_bounded cfg s" and "n \<le> maxRetries cfg"
  shows "retry_bounded cfg (processEmbed cfg w n s)"
proof -
  have called: "retry_bounded cfg (emit (Called w n) s)"
    using assms by simp
  show ?thesis
    using retry_bounded_gate [OF called] assms(2) called
    by (auto simp: processEmbed_def Let_def split_def
        intro!: retry_bounded_await split: option.splits)
qed

lemma retry_bounded_setTimeout:
  assumes "retry_bounded cfg s" and "task_retry t \<le> maxRetries cfg"
  shows "retry_bounded cfg (setTimeout t d s)"
  using assms by (auto simp: retry_bounded_def setTimeout_def emit_def)

lemma retry_bounded_resume:
  assumes "retry_bounded cfg s" and "microtasks s = (k, r) # rest"
  shows "retry_bounded cfg (resume cfg k r (s\<lparr>microtasks := rest\<rparr>))"
proof -
  obtain w pl n where k: "k = AfterGate w pl n" by (cases k)
  have n: "n \<le> maxRetries cfg"
    using assms k by (auto simp: retry_bounded_def)
  have rest: "retry_bounded cfg (s\<lparr>microtasks := rest\<rparr>)"
    using assms by (auto simp: retry_bounded_def)
  show ?thesis
    using rest n
    by (cases r)
       (auto simp: k resume_def embed_loaded_def embed_failed_def Let_def
        intro!: retry_bounded_setTimeout split: option.splits)
qed

lemma retry_bounded_hook_process: "retry_bounded cfg s \<Longrightarrow> retry_bounded cfg (hook_process s)"
  by (simp add: hook_process_def split: option.splits hook.splits)

lemma retry_bounded_fold:
  assumes "\<And>x s. retry_bounded cfg s \<Longrightarrow> retry_bounded cfg (f x s)" and "retry_bounded cfg s"
  shows "retry_bounded cfg (fold f xs s)"
  using assms by (rule fold_preserves)

lemma retry_bounded_manual_click:
  "retry_bounded cfg s \<Longrightarrow> retry_bounded cfg (manual_click cfg c s)"
  by (simp add: manual_click_def retry_bounded_processEmbed split: option.splits)

lemma retry_bounded_observer_entry:
  "retry_bounded cfg s \<Longrightarrow> retry_bounded cfg (observer_entry cfg e s)"
  by (cases e) (simp add: observer_entry_def unobserve_def retry_bounded_processEmbed)

lemma retry_bounded_preload_visit:
  "retry_bounded cfg s \<Longrightarrow> retry_bounded cfg (preload_visit cfg w s)"
  by (simp add: preload_visit_def retry_bounded_processEmbed)

lemma retry_bounded_init: "retry_bounded cfg s \<Longrightarrow> retry_bounded cfg (init cfg s)"
  by (auto simp: init_def initLazyLoading_def initManualLoadButtons_def Let_def
      intro!: retry_bounded_fold retry_bounded_processEmbed)

lemma retry_bounded_fire:
  assumes "retry_bounded cfg s" and "i < length (timers s)"
  shows "retry_bounded cfg
           (run_task cfg (snd (timers s ! i))
              (s\<lparr>timers := take i (timers s) @ drop (Suc i) (timers s)\<rparr>))"
proof -
  let ?s0 = "s\<lparr>timers := take i (timers s) @ drop (Suc i) (timers s)\<rparr>"
  have rest: "retry_bounded cfg ?s0"
    using assms(1) by (auto simp: retry_bounded_def dest: in_set_takeD in_set_dropD)
  have fired: "timers s ! i \<in> set (timers s)"
    using assms(2) by simp
  show ?thesis
  proof (cases "snd (timers s ! i)")
    case (Retry w n)
    have "task_retry (snd (timers s ! i)) \<le> maxRetries cfg"
      using fired assms(1) by (auto simp: retry_bounded_def split_def)
    then have "n \<le> maxRetries cfg"
      using Retry by simp
    then show ?thesis
      using rest Retry by (simp add: run_task_def retry_bounded_processEmbed)
  next
    case HookProcess
    then show ?thesis
      using rest by (simp add: run_task_def retry_bounded_hook_process)
  next
    case PreloadVisible
    then show ?thesis
      using rest
      by (auto simp: run_task_def preloadVisibleEmbeds_def
          intro: retry_bounded_fold retry_bounded_preload_visit)
  qed
qed

lemma retry_bounded_handle:
  assumes "retry_bounded cfg s"
  shows "retry_bounded cfg (handle cfg e s)"
proof (cases e)
  case DomReady
  then show ?thesis using assms by (simp add: handle_def retry_bounded_init)
next
  case (Click c)
  then show ?thesis using assms by (simp add: handle_def retry_bounded_manual_click)
next
  case (Intersect es)
  then show ?thesis using assms
    by (auto simp: handle_def observer_callback_def
        intro: retry_bounded_fold retry_bounded_observer_entry)
next
  case WindowLoad
  then show ?thesis using assms by (auto simp: handle_def intro!: retry_bounded_setTimeout)
next
  case (ScriptLoad i h)
  then show ?thesis using assms
    by (auto simp: handle_def script_onload_def intro!: retry_bounded_settle split: option.splits)
next
  case (ScriptError i)
  then show ?thesis using assms
    by (auto simp: handle_def script_onerror_def
        intro!: retry_bounded_settle split: option.splits)
next
  case (TimerFire i)
  then show ?thesis using assms by (simp add: handle_def retry_bounded_fire)
next
  case (Relayout l v)
  then show ?thesis using assms by (simp add: handle_def)
qed

lemma retry_bounded_step: "retry_bounded cfg s \<Longrightarrow> retry_bounded cfg (step cfg e s)"
  unfolding step_def
  by (rule drain_preserves [where P = "retry_bounded cfg"])
     (simp_all add: retry_bounded_resume retry_bounded_handle)

lemma retry_bounded_run: "retry_bounded cfg s \<Longrightarrow> retry_bounded cfg (run cfg es s)"
  by (induction es arbitrary: s) (simp_all add: retry_bounded_step)

lemma retry_bounded_page: "retry_bounded cfg (page ns ws srcs body io h l v)"
  by (simp add: retry_bounded_def page_def)

lemma attempts_bounded:
  assumes "\<forall>x \<in> set t. obs_retry x \<le> m"
  shows "\<forall>n \<in> set (attempts w t). n \<le> m"
  using assms by (induction t) (auto simp: attempts_def split: obs.splits)

text \<open>
  The calls of \<open>processEmbed\<close> on one wrapper, read off the trace.
\<close>

lemma attempts_append [simp]: "attempts w (t @ u) = attempts w t @ attempts w u"
  by (simp add: attempts_def)

lemma attempts_Nil [simp]: "attempts w [] = []"
  by (simp add: attempts_def)

lemma attempts_Cons [simp]:
  "attempts w (x # t) =
     (case x of Called v n \<Rightarrow> (if v = w then [n] else []) | _ \<Rightarrow> []) @ attempts w t"
  by (simp add: attempts_def)

lemma processEmbed_dom [simp]:
  "nodes (processEmbed cfg v n s) = nodes s"
  "layout (processEmbed cfg v n s) = layout s"
  "window (processEmbed cfg v n s) = window s"
  by (auto simp: processEmbed_def loadInstagramScript_def script_executor_def new_promise_def
      settle_def await_def emit_def Let_def split: option.splits)

lemma attempts_processEmbed:
  "attempts w (trace (processEmbed cfg v n s)) =
     attempts w (trace s) @ (if v = w then [n] else [])"
  by (auto simp: processEmbed_def loadInstagramScript_def script_executor_def new_promise_def
      settle_def await_def emit_def Let_def split: option.splits)

text \<open>
  Claim C4, amended. The retry count is the argument of one chain of calls of
  \<open>processEmbed\<close>, not a count stored with the wrapper. From a fresh page, over any
  sequence of events, every call of \<open>processEmbed\<close> has a retry count of at most
  \<open>maxRetries\<close>; and a click on the manual button of a wrapper that is not marked loaded
  calls \<open>processEmbed\<close> with the count 0, whatever was counted before.
\<close>

theorem retry_count_per_chain:
  "(\<forall>n \<in> set (attempts w (trace (run cfg es (page ns ws srcs body io h l v)))).
      n \<le> maxRetries cfg)
   \<and> (\<not> loaded (nodes s w) \<longrightarrow>
        attempts w (trace (manual_click cfg (Some w) s)) = attempts w (trace s) @ [0])"
proof -
  have "retry_bounded cfg (run cfg es (page ns ws srcs body io h l v))"
    by (rule retry_bounded_run [OF retry_bounded_page])
  then have "\<forall>x \<in> set (trace (run cfg es (page ns ws srcs body io h l v))).
      obs_retry x \<le> maxRetries cfg"
    by (simp add: retry_bounded_def)
  then show ?thesis
    by (simp add: attempts_bounded manual_click_def attempts_processEmbed)
qed

text \<open>
  Claim C4, amended, on the page without a body: after the counts 0, 1, 2, 3 of a first
  chain a click calls \<open>processEmbed\<close> with the count 0.
\<close>

theorem retry_count_per_chain_witness:
  "attempts 0 (trace (run CONFIG [DomReady, Intersect [(0, True)], TimerFire 0, TimerFire 0,
      TimerFire 0] bodyless_page)) = [0, 1, 2, 3]
   \<and> maxRetries CONFIG = 3
   \<and> \<not> loaded (nodes (run CONFIG [DomReady, Intersect [(0, True)], TimerFire 0, TimerFire 0,
      TimerFire 0] bodyless_page) 0)
   \<and> attempts 0 (trace (manual_click CONFIG (Some 0) (run CONFIG [DomReady, Intersect [(0, True)],
      TimerFire 0, TimerFire 0, TimerFire 0] bodyless_page))) = [0, 1, 2, 3, 0]"
  using retry_count_per_chain [of 0 CONFIG "[DomReady, Intersect [(0, True)], TimerFire 0, TimerFire 0,
      TimerFire 0]" "\<lambda>_. demo_wrapper" "[0]" "[]" False True None "\<lambda>_. demo_rect" demo_viewport
      "run CONFIG [DomReady, Intersect [(0, True)], TimerFire 0, TimerFire 0,
      TimerFire 0] bodyless_page"]
  by (simp add: demo_defs loader_defs trace_defs drain_Nil drain_Cons)

text \<open>
  Claim C4 as stated fails. On the example page, after one failed attempt, a click calls
  \<open>processEmbed\<close> with the retry count 0 again. On the page without a body, after the four
  failed attempts of the first chain, a click starts a second chain: the failure logged
  next is attempt 1, and the retry set is retry 1 after 1000ms.
\<close>

theorem manual_click_restarts_count:
  "trace (run CONFIG [DomReady, Intersect [(0, True)], ScriptError 0] demo_page) =
     [Called 0 0, ScriptCreated, GateReturned 0, ErrScriptFailed, ErrAttempt 1, TimerSet 1000 (Retry 0 1)]
   \<and> attempts 0 (trace (run CONFIG [DomReady, Intersect [(0, True)], ScriptError 0, Click (Some 0)] demo_page)) = [0, 0]
   \<and> trace (run CONFIG [DomReady, Intersect [(0, True)], TimerFire 0, TimerFire 0, TimerFire 0, Click (Some 0)] bodyless_page) =
     [Called 0 0, ScriptCreated, ErrScriptException, GateReturned 0, ErrAttempt 1, TimerSet 1000 (Retry 0 1),
      Called 0 1, GateReturned 0, ErrAttempt 2, TimerSet 2000 (Retry 0 2),
      Called 0 2, GateReturned 0, ErrAttempt 3, TimerSet 3000 (Retry 0 3),
      Called 0 3, GateReturned 0, ErrAttempt 4, ErrMaxRetries,
      Called 0 0, GateReturned 0, ErrAttempt 1, TimerSet 1000 (Retry 0 1)]"
  by (simp add: demo_defs loader_defs trace_defs drain_Nil drain_Cons)

subsection \<open>The two automatic triggers\<close>

text \<open>
  Continuations call \<open>processEmbed\<close> on no wrapper; the triggers call it on no loaded one.
\<close>

lemma attempts_resume [simp]:
  "attempts w (trace (resume cfg k r s)) = attempts w (trace s)"
  by (auto simp: resume_def embed_loaded_def embed_failed_def setTimeout_def emit_def Let_def
      split: continuation.splits settlement.splits option.splits)

lemma attempts_drain: "attempts w (trace (drain cfg s)) = attempts w (trace s)"
  by (rule drain_preserves [where P = "\<lambda>s'. attempts w (trace s') = attempts w (trace s)"])
     simp_all

lemma observer_entry_loaded:
  assumes "loaded (nodes s w) \<and> attempts w (trace s) = a"
  shows "loaded (nodes (observer_entry cfg e s) w)
       \<and> attempts w (trace (observer_entry cfg e s)) = a"
  using assms
  by (cases e) (auto simp: observer_entry_def unobserve_def attempts_processEmbed)

lemma observer_callback_loaded:
  assumes "loaded (nodes s w)"
  shows "attempts w (trace (observer_callback cfg es s)) = attempts w (trace s)"
proof -
  have "loaded (nodes (fold (observer_entry cfg) es s) w)
      \<and> attempts w (trace (fold (observer_entry cfg) es s)) = attempts w (trace s)"
    by (rule fold_preserves
          [where P = "\<lambda>s'. loaded (nodes s' w) \<and> attempts w (trace s') = attempts w (trace s)"])
       (simp_all add: observer_entry_loaded assms)
  then show ?thesis by (simp add: observer_callback_def)
qed

lemma preload_visit_dom [simp]:
  "nodes (preload_visit cfg v s) = nodes s"
  "layout (preload_visit cfg v s) = layout s"
  "window (preload_visit cfg v s) = window s"
  by (simp_all add: preload_visit_def)

lemma attempts_preload_fold:
  assumes "distinct ws"
  shows "attempts w (trace (fold (preload_visit cfg) ws s)) =
           attempts w (trace s) @
             (if w \<in> set ws \<and> isVisible (layout s w) (window s) \<and> \<not> loaded (nodes s w)
              then [0] else [])"
  using assms
proof (induction ws arbitrary: s)
  case Nil
  then show ?case by simp
next
  case (Cons v ws)
  then show ?case
    by (auto simp: preload_visit_def attempts_processEmbed)
qed

text \<open>
  Claim C5, amended. When the eager scan runs over the distinct wrappers of the page, a
  wrapper that is fully in the viewport and not marked loaded is activated by it, with
  exactly one call of \<open>processEmbed\<close>, at count 0. A wrapper that is marked loaded is
  activated neither by the eager scan nor by a report of the observer, whatever the
  report lists.
\<close>

theorem eager_once_then_loaded_guard:
  assumes "i < length (timers s)" and "snd (timers s ! i) = PreloadVisible"
    and "distinct (doc_wrappers s)" and "w \<in> set (doc_wrappers s)"
    and "isVisible (layout s w) (window s)"
  shows "(\<not> loaded (nodes s w) \<longrightarrow>
            attempts w (trace (step cfg (TimerFire i) s)) = attempts w (trace s) @ [0])
       \<and> (loaded (nodes s w) \<longrightarrow>
            attempts w (trace (step cfg (TimerFire i) s)) = attempts w (trace s)
          \<and> attempts w (trace (step cfg (Intersect es) s)) = attempts w (trace s))"
  using assms
  by (simp add: step_def handle_def run_task_def preloadVisibleEmbeds_def attempts_drain
      attempts_preload_fold observer_callback_loaded)

text \<open>
  Claim C5, amended, on the example page before any activation, and on the page with
  the script present after the observer has loaded the wrapper.
\<close>

theorem eager_once_then_loaded_guard_witness:
  "0 < length (timers (run CONFIG [DomReady, WindowLoad] demo_page))
   \<and> snd (timers (run CONFIG [DomReady, WindowLoad] demo_page) ! 0) = PreloadVisible
   \<and> distinct (doc_wrappers (run CONFIG [DomReady, WindowLoad] demo_page))
   \<and> 0 \<in> set (doc_wrappers (run CONFIG [DomReady, WindowLoad] demo_page))
   \<and> isVisible (layout (run CONFIG [DomReady, WindowLoad] demo_page) 0)
        (window (run CONFIG [DomReady, WindowLoad] demo_page))
   \<and> \<not> loaded (nodes (run CONFIG [DomReady, WindowLoad] demo_page) 0)
   \<and> attempts 0 (trace (step CONFIG (TimerFire 0) (run CONFIG [DomReady, WindowLoad] demo_page))) = [0]
   \<and> 1 < length (timers (run CONFIG [DomReady, Intersect [(0, True)], WindowLoad] prescripted_page))
   \<and> snd (timers (run CONFIG [DomReady, Intersect [(0, True)], WindowLoad] prescripted_page) ! 1)
        = PreloadVisible
   \<and> loaded (nodes (run CONFIG [DomReady, Intersect [(0, True)], WindowLoad] prescripted_page) 0)
   \<and> attempts 0 (trace (step CONFIG (TimerFire 1)
        (run CONFIG [DomReady, Intersect [(0, True)], WindowLoad] prescripted_page))) = [0]
   \<and> attempts 0 (trace (step CONFIG (Intersect [(0, True)])
        (run CONFIG [DomReady, Intersect [(0, True)], WindowLoad] prescripted_page))) = [0]"
  using eager_once_then_loaded_guard [of 0 "run CONFIG [DomReady, WindowLoad] demo_page" 0 CONFIG "[]"]
    eager_once_then_loaded_guard [of 1 "run CONFIG [DomReady, Intersect [(0, True)], WindowLoad] prescripted_page"
      0 CONFIG "[(0, True)]"]
  by (simp add: demo_defs loader_defs trace_defs drain_Nil drain_Cons)

text \<open>
  Claim C5 as stated fails. On the example page the wrapper is fully in the viewport.
  When the observer reports first and the script has loaded before the eager scan runs,
  the observer's report is the one activation and the eager scan makes none. When the
  eager scan runs first, it calls \<open>processEmbed\<close>; while the script is still loading the
  wrapper is not marked loaded, so the observer's report calls \<open>processEmbed\<close> on it
  again; when the script has loaded, both continuations append an embed.
\<close>

theorem eager_then_observer_activates_twice:
  "isVisible (layout demo_page 0) (window demo_page)
   \<and> attempts 0 (trace (run CONFIG [DomReady, Intersect [(0, True)], ScriptLoad 0 (Some HookReturns),
        WindowLoad] demo_page)) = [0]
   \<and> timers (run CONFIG [DomReady, Intersect [(0, True)], ScriptLoad 0 (Some HookReturns),
        WindowLoad] demo_page) = [(100, HookProcess), (500, PreloadVisible)]
   \<and> attempts 0 (trace (run CONFIG [DomReady, Intersect [(0, True)], ScriptLoad 0 (Some HookReturns),
        WindowLoad, TimerFire 1] demo_page)) = [0]
   \<and> attempts 0 (trace (run CONFIG [DomReady, WindowLoad, TimerFire 0] demo_page)) = [0]
   \<and> attempts 0 (trace (run CONFIG [DomReady, WindowLoad, TimerFire 0, Intersect [(0, True)]] demo_page)) = [0, 0]
   \<and> length (appended (nodes (run CONFIG [DomReady, WindowLoad, TimerFire 0, Intersect [(0, True)],
        ScriptLoad 0 (Some HookReturns)] demo_page) 0)) = 2"
  by (simp add: demo_defs loader_defs trace_defs drain_Nil drain_Cons)

end
